theory Spec2Isabelle
  imports Main "HOL-Library.Word" "HOL-Library.Sublist"
begin

section \<open>Numeric types: \<open>TType\<close> and \<open>FPType\<close>\<close>

text \<open>
  \<open>InputInfo.h\<close> declares an abstract class \<open>TType\<close> whose only subclass is \<open>FPType\<close>.
  A value of the datatype \<open>TType\<close> is an object of that subclass. An \<open>FPType\<close> stores
  \<open>int Width\<close> (negative if signed) and \<open>unsigned PointPos\<close>; both are 32-bit machine
  integers, modelled as \<open>32 word\<close>. \<open>Width\<close> is read as two's complement with \<open>sint\<close>,
  \<open>PointPos\<close> as unsigned with \<open>unat\<close>.
\<close>

type_synonym c_int = "32 word"
type_synonym c_unsigned = "32 word"

datatype TType = FPType (Width: c_int) (PointPos: c_unsigned)

text \<open>
  \<open>std::abs(int)\<close>. On \<open>INT_MIN\<close> the C++ standard leaves the result undefined; the model
  gives the two's-complement result (\<open>INT_MIN\<close> again). Theorems below that depend on
  \<open>std_abs\<close> exclude \<open>INT_MIN\<close> by hypothesis.
\<close>

definition INT_MIN :: c_int where
  "INT_MIN = 2147483648"

definition std_abs :: "c_int \<Rightarrow> c_int" where
  "std_abs x = (if sint x < 0 then - x else x)"

text \<open>
  \<open>FPType(unsigned Width, unsigned PointPos, bool Signed = true)\<close>: the member is initialised
  with \<open>(Signed) ? -Width : Width\<close>. Both branches are \<open>unsigned\<close>, so the negation is the
  unsigned one (modulo \<open>2^32\<close>); the conversion to the \<open>int\<close> member keeps the bits.
\<close>

definition FPType_unsigned :: "c_unsigned \<Rightarrow> c_unsigned \<Rightarrow> bool \<Rightarrow> TType" where
  "FPType_unsigned W P Signed = FPType (if Signed then - W else W) P"

text \<open>\<open>FPType(int Width, unsigned PointPos)\<close>.\<close>

definition FPType_int :: "c_int \<Rightarrow> c_unsigned \<Rightarrow> TType" where
  "FPType_int W P = FPType W P"

definition getWidth :: "TType \<Rightarrow> c_unsigned" where
  "getWidth t = std_abs (Width t)"

definition getSWidth :: "TType \<Rightarrow> c_int" where
  "getSWidth t = Width t"

definition getPointPos :: "TType \<Rightarrow> c_unsigned" where
  "getPointPos t = PointPos t"

definition isSigned :: "TType \<Rightarrow> bool" where
  "isSigned t = (sint (Width t) < 0)"

definition TType_clone :: "TType \<Rightarrow> TType" where
  "TType_clone t = FPType_int (Width t) (PointPos t)"

subsection \<open>Printing unsigned integers\<close>

text \<open>
  \<open>operator<<\<close> of a \<open>std::stringstream\<close> on an \<open>unsigned\<close> appends its decimal digits,
  most significant first, without padding.
\<close>

definition digit :: "nat \<Rightarrow> char" where
  "digit d = ''0123456789'' ! d"

function dec :: "nat \<Rightarrow> string" where
  "dec n = (if n < 10 then [digit n] else dec (n div 10) @ [digit (n mod 10)])"
  by pat_completeness auto
termination
  by (relation "measure id") auto

declare dec.simps [simp del]

text \<open>
  \<open>FPType::toString\<close>. In \<open>std::abs(Width)-PointPos\<close> the left operand is an \<open>int\<close> and the
  right one an \<open>unsigned\<close>: the subtraction is carried out in \<open>unsigned\<close>, modulo \<open>2^32\<close>,
  and the stream prints the unsigned result.
\<close>

definition FPType_toString :: "TType \<Rightarrow> string" where
  "FPType_toString t =
     (if sint (Width t) < 0 then ''s'' else ''u'')
     @ dec (unat (std_abs (Width t) - PointPos t))
     @ ''_'' @ dec (unat (PointPos t)) @ ''fixp''"

text \<open>The virtual \<open>TType::toString\<close>: the only concrete class is \<open>FPType\<close>.\<close>

fun TType_toString :: "TType \<Rightarrow> string" where
  "TType_toString (FPType w p) = FPType_toString (FPType w p)"

text \<open>
  The canonical form as the specification words it: the sign letter, then the total width
  minus the fractional bits as an integer, an underscore, the fractional bits, \<open>fixp\<close>.
\<close>

definition show_int :: "int \<Rightarrow> string" where
  "show_int i = (if i < 0 then ''-'' @ dec (nat (- i)) else dec (nat i))"

definition canonical_fixp :: "TType \<Rightarrow> string" where
  "canonical_fixp t =
     (if isSigned t then ''s'' else ''u'')
     @ show_int (int (unat (getWidth t)) - int (unat (getPointPos t)))
     @ ''_'' @ dec (unat (getPointPos t)) @ ''fixp''"

subsection \<open>Equality\<close>

text \<open>
  \<open>operator==\<close> takes a \<open>const TType &\<close>, which may refer to an object of any subclass of
  \<open>TType\<close>. The enum \<open>TTypeKind\<close> of the header has the single enumerator \<open>K_FPType\<close>, and
  every constructor of \<open>FPType\<close> passes it to \<open>TType\<close>; a subclass added later comes with an
  enumerator of its own, which is \<open>K_Other n\<close>. An object behind such a reference is
  therefore either an \<open>FPType\<close> or an object of another subclass, with its kind and with
  fields \<open>'o\<close> of its own (which may well hold the same numbers as an \<open>FPType\<close>).
\<close>

datatype TTypeKind = K_FPType | K_Other nat

datatype 'o TTypeObject = FPTypeObject TType | OtherObject nat 'o

fun getKind :: "'o TTypeObject \<Rightarrow> TTypeKind" where
  "getKind (FPTypeObject t) = K_FPType"
| "getKind (OtherObject n x) = K_Other n"

text \<open>
  \<open>llvm::cast<FPType>\<close> asserts \<open>FPType::classof\<close> on its argument; a failed assertion is
  the fault \<open>BadCast\<close>. \<open>TType::operator==\<close> compares the kinds; \<open>FPType::operator==\<close>, whose
  \<open>this\<close> is an \<open>FPType\<close>, calls it first and casts only afterwards.
\<close>

datatype fault = BadCast | IndexOutOfRange

definition classof_FPType :: "'o TTypeObject \<Rightarrow> bool" where
  "classof_FPType T = (getKind T = K_FPType)"

definition cast_FPType :: "'o TTypeObject \<Rightarrow> fault + TType" where
  "cast_FPType T =
     (if classof_FPType T
      then (case T of FPTypeObject t \<Rightarrow> Inr t | OtherObject n x \<Rightarrow> Inl BadCast)
      else Inl BadCast)"

definition TType_eq :: "'o TTypeObject \<Rightarrow> 'o TTypeObject \<Rightarrow> bool" where
  "TType_eq a b = (getKind a = getKind b)"

definition FPType_eq :: "TType \<Rightarrow> 'o TTypeObject \<Rightarrow> fault + bool" where
  "FPType_eq a b =
     (if \<not> TType_eq (FPTypeObject a) b then Inr False
      else case cast_FPType b of
             Inl e \<Rightarrow> Inl e
           | Inr b2 \<Rightarrow> Inr (Width a = Width b2 \<and> PointPos a = PointPos b2))"

section \<open>Ranges and annotations\<close>

record 'd Range =
  Min :: 'd
  Max :: 'd

text \<open>
  \<open>MDInfo\<close> is an abstract class with the two subclasses \<open>InputInfo\<close> (kind \<open>K_Field\<close>) and
  \<open>StructInfo\<close> (kind \<open>K_Struct\<close>). A \<open>std::shared_ptr\<close> that may be null is an \<open>option\<close>;
  the \<open>SmallVector\<close> of fields is a list. This view by value serves the functions that only
  read annotations; \<open>clone\<close> is modelled on a store further down.
\<close>

datatype MDInfoKind = K_Struct | K_Field

datatype 'd MDInfo =
    InputInfo (IType: "TType option") (IRange: "'d Range option") (IError: "'d option")
  | StructInfo (Fields: "'d MDInfo option list")

fun MDInfo_getKind :: "'d MDInfo \<Rightarrow> MDInfoKind" where
  "MDInfo_getKind (InputInfo t r e) = K_Field"
| "MDInfo_getKind (StructInfo fs) = K_Struct"

subsection \<open>Printing annotations\<close>

text \<open>
  \<open>InputInfo::toString\<close> writes to a stream and keeps the flag \<open>first\<close>; the model threads
  the pair of the text written so far and the flag through the three \<open>if\<close> statements.
  How the stream prints a \<open>double\<close> is the parameter \<open>sd\<close>.
\<close>

definition InputInfo_toString ::
  "('d \<Rightarrow> string) \<Rightarrow> TType option \<Rightarrow> 'd Range option \<Rightarrow> 'd option \<Rightarrow> string" where
  "InputInfo_toString sd t r e =
     (let s0 = ''scalar('';
          first0 = True;
          (s1, first1) =
             (case t of
                Some ty \<Rightarrow> (s0 @ ''type('' @ TType_toString ty @ '')'', False)
              | None \<Rightarrow> (s0, first0));
          (s2, first2) =
             (case r of
                Some rg \<Rightarrow>
                  ((if \<not> first1 then s1 @ '' '' else s1)
                     @ ''range('' @ sd (Min rg) @ '', '' @ sd (Max rg) @ '')'', False)
              | None \<Rightarrow> (s1, first1));
          s3 =
             (case e of
                Some er \<Rightarrow> (if \<not> first2 then s2 @ '' '' else s2) @ ''error('' @ sd er @ '')''
              | None \<Rightarrow> s2)
      in s3 @ '')'')"

text \<open>
  \<open>StructInfo::toString\<close>: \<open>fields_toString first fs\<close> is the text the loop writes for the
  remaining fields \<open>fs\<close> when entered with the flag \<open>first\<close>. The call \<open>i->toString()\<close> is
  virtual.
\<close>

fun MDInfo_toString :: "('d \<Rightarrow> string) \<Rightarrow> 'd MDInfo \<Rightarrow> string"
  and fields_toString :: "('d \<Rightarrow> string) \<Rightarrow> bool \<Rightarrow> 'd MDInfo option list \<Rightarrow> string" where
  "MDInfo_toString sd (InputInfo t r e) = InputInfo_toString sd t r e"
| "MDInfo_toString sd (StructInfo fs) = ''struct('' @ fields_toString sd True fs @ '')''"
| "fields_toString sd first [] = []"
| "fields_toString sd first (i # rest) =
     (if \<not> first then '', '' else [])
     @ (case i of Some m \<Rightarrow> MDInfo_toString sd m | None \<Rightarrow> ''void()'')
     @ fields_toString sd False rest"

text \<open>
  The formats as the specification words them: the items present, in order, joined by a
  separator and wrapped in \<open>scalar(...)\<close> or \<open>struct(...)\<close>.
\<close>

fun join_with :: "string \<Rightarrow> string list \<Rightarrow> string" where
  "join_with sep [] = []"
| "join_with sep [x] = x"
| "join_with sep (x # y # ys) = x @ sep @ join_with sep (y # ys)"

fun present :: "'a option list \<Rightarrow> 'a list" where
  "present [] = []"
| "present (None # xs) = present xs"
| "present (Some x # xs) = x # present xs"

definition scalar_format ::
  "('d \<Rightarrow> string) \<Rightarrow> TType option \<Rightarrow> 'd Range option \<Rightarrow> 'd option \<Rightarrow> string" where
  "scalar_format sd t r e =
     ''scalar(''
     @ join_with '' ''
         (present
            [map_option (\<lambda>ty. ''type('' @ TType_toString ty @ '')'') t,
             map_option (\<lambda>rg. ''range('' @ sd (Min rg) @ '', '' @ sd (Max rg) @ '')'') r,
             map_option (\<lambda>er. ''error('' @ sd er @ '')'') e])
     @ '')''"

definition slot_format :: "('d \<Rightarrow> string) \<Rightarrow> 'd MDInfo option \<Rightarrow> string" where
  "slot_format sd i = (case i of None \<Rightarrow> ''void()'' | Some m \<Rightarrow> MDInfo_toString sd m)"

definition struct_format :: "('d \<Rightarrow> string) \<Rightarrow> 'd MDInfo option list \<Rightarrow> string" where
  "struct_format sd fs = ''struct('' @ join_with '', '' (map (slot_format sd) fs) @ '')''"

section \<open>Type descriptors of the host representation\<close>

text \<open>
  Modelled from the spec: the class \<open>llvm::Type\<close>, of which the header uses
  \<open>getNumContainedTypes\<close>, \<open>getContainedType\<close> and \<open>isStructTy\<close>. The specification
  describes it as a read-only contained-element-type query (an arity and an element type
  for each index) and an is-struct-like predicate. A descriptor is therefore a flag and the
  list of its contained descriptors. Outside the arity there is no element type: the
  accessor of LLVM asserts that the index is in range, which is the fault
  \<open>IndexOutOfRange\<close>.
\<close>

datatype Type = Type (isStructTy: bool) (ContainedTys: "Type list")

definition getNumContainedTypes :: "Type \<Rightarrow> nat" where
  "getNumContainedTypes t = length (ContainedTys t)"

definition getContainedType :: "Type \<Rightarrow> nat \<Rightarrow> fault + Type" where
  "getContainedType t i =
     (if i < getNumContainedTypes t then Inr (ContainedTys t ! i) else Inl IndexOutOfRange)"

subsection \<open>Shape derivation\<close>


subsection \<open>Index resolution\<close>

text \<open>
  \<open>SmallVector::operator[]\<close> asserts that the index is below the size, and
  \<open>llvm::cast<StructInfo>\<close> asserts \<open>StructInfo::classof\<close>.
\<close>

definition getField :: "'d MDInfo option list \<Rightarrow> nat \<Rightarrow> fault + 'd MDInfo option" where
  "getField fs I = (if I < length fs then Inr (fs ! I) else Inl IndexOutOfRange)"

definition classof_StructInfo :: "'d MDInfo \<Rightarrow> bool" where
  "classof_StructInfo M = (MDInfo_getKind M = K_Struct)"

definition cast_StructInfo :: "'d MDInfo \<Rightarrow> fault + 'd MDInfo option list" where
  "cast_StructInfo M = (if classof_StructInfo M then Inr (Fields M) else Inl BadCast)"

text \<open>
  The loop of \<open>StructInfo::resolveFromIndexList\<close> over the indices, on the state
  \<open>(resolvedType, resolvedInfo)\<close>. The second equation is the \<open>break\<close> on a null
  \<open>resolvedInfo\<close>. In both branches the type advances by \<open>getContainedType(idx)\<close>; in the
  struct branch the type advances before the annotation does.
\<close>

fun resolve_loop :: "Type \<Rightarrow> 'd MDInfo option \<Rightarrow> nat list \<Rightarrow> fault + 'd MDInfo option" where
  "resolve_loop resolvedType resolvedInfo [] = Inr resolvedInfo"
| "resolve_loop resolvedType None (idx # rest) = Inr None"
| "resolve_loop resolvedType (Some m) (idx # rest) =
     (if isStructTy resolvedType then
        (case getContainedType resolvedType idx of
           Inl f \<Rightarrow> Inl f
         | Inr ty \<Rightarrow>
             (case cast_StructInfo m of
                Inl f \<Rightarrow> Inl f
              | Inr fs \<Rightarrow>
                  (case getField fs idx of
                     Inl f \<Rightarrow> Inl f
                   | Inr info \<Rightarrow> resolve_loop ty info rest)))
      else
        (case getContainedType resolvedType idx of
           Inl f \<Rightarrow> Inl f
         | Inr ty \<Rightarrow> resolve_loop ty (Some m) rest))"

text \<open>\<open>this\<close> is the \<open>StructInfo\<close> with the fields \<open>fs\<close>.\<close>

definition resolveFromIndexList ::
  "'d MDInfo option list \<Rightarrow> Type \<Rightarrow> nat list \<Rightarrow> fault + 'd MDInfo option" where
  "resolveFromIndexList fs type indices = resolve_loop type (Some (StructInfo fs)) indices"


text \<open>
  A path all of whose steps exist and traverse non-struct types: at each step the current
  type is not a struct and the index selects one of its contained types.
\<close>

fun nonstruct_path :: "Type \<Rightarrow> nat list \<Rightarrow> bool" where
  "nonstruct_path t [] = True"
| "nonstruct_path t (i # rest) =
     (\<not> isStructTy t
      \<and> (case getContainedType t i of Inl f \<Rightarrow> False | Inr t' \<Rightarrow> nonstruct_path t' rest))"

section \<open>Cloning on a store\<close>

text \<open>
  \<open>clone\<close> allocates objects, and what it promises is about sharing, so it is modelled on
  an explicit store: a list of objects, an address being an index and \<open>new\<close> appending at
  the end. A \<open>std::shared_ptr\<close> is an optional address. \<open>load\<close> reads an address; reading
  outside the store or finding an object of another class yields \<open>None\<close>, which the C++
  type system and the shared ownership exclude.
\<close>

type_synonym addr = nat

datatype 'd obj =
    TTypeObj TType
  | RangeObj "'d Range"
  | DoubleObj 'd
  | InputInfoObj "addr option" "addr option" "addr option"
  | StructInfoObj "addr option list"

type_synonym 'd store = "'d obj list"

definition load :: "'d store \<Rightarrow> addr \<Rightarrow> 'd obj option" where
  "load h a = (if a < length h then Some (h ! a) else None)"

definition new_obj :: "'d store \<Rightarrow> 'd obj \<Rightarrow> 'd store \<times> addr" where
  "new_obj h ob = (h @ [ob], length h)"

fun as_TType :: "'d obj \<Rightarrow> TType option" where
  "as_TType (TTypeObj t) = Some t"
| "as_TType _ = None"

fun as_Range :: "'d obj \<Rightarrow> 'd Range option" where
  "as_Range (RangeObj r) = Some r"
| "as_Range _ = None"

fun as_double :: "'d obj \<Rightarrow> 'd option" where
  "as_double (DoubleObj x) = Some x"
| "as_double _ = None"

text \<open>The copy constructor \<open>Range(Range& r) : Min(r.Min), Max(r.Max)\<close>.\<close>

definition Range_copy :: "'d Range \<Rightarrow> 'd Range" where
  "Range_copy r = \<lparr> Min = Min r, Max = Max r \<rparr>"

text \<open>
  \<open>P.get() ? new X(...) : nullptr\<close>, wrapped in a new \<open>shared_ptr\<close>: a null pointer stays
  null, otherwise the pointee is read with \<open>get\<close> and the object \<open>mk x\<close> is allocated.
\<close>

definition clone_ptr ::
  "('d obj \<Rightarrow> 'x option) \<Rightarrow> ('x \<Rightarrow> 'd obj) \<Rightarrow> 'd store \<Rightarrow> addr option
     \<Rightarrow> ('d store \<times> addr option) option" where
  "clone_ptr get mk h p =
     (case p of
        None \<Rightarrow> Some (h, None)
      | Some a \<Rightarrow>
          (case load h a of
             None \<Rightarrow> None
           | Some ob \<Rightarrow>
               (case get ob of
                  None \<Rightarrow> None
                | Some x \<Rightarrow> (case new_obj h (mk x) of (h', a') \<Rightarrow> Some (h', Some a')))))"

text \<open>
  \<open>InputInfo::clone\<close>: the three fields are copied in the order of the source, then the new
  \<open>InputInfo\<close> is allocated.
\<close>

definition InputInfo_clone ::
  "'d store \<Rightarrow> addr option \<Rightarrow> addr option \<Rightarrow> addr option \<Rightarrow> ('d store \<times> addr) option" where
  "InputInfo_clone h t r e =
     (case clone_ptr as_TType (\<lambda>t. TTypeObj (TType_clone t)) h t of
        None \<Rightarrow> None
      | Some (h1, NewIType) \<Rightarrow>
     (case clone_ptr as_Range (\<lambda>r. RangeObj (Range_copy r)) h1 r of
        None \<Rightarrow> None
      | Some (h2, NewIRange) \<Rightarrow>
     (case clone_ptr as_double DoubleObj h2 e of
        None \<Rightarrow> None
      | Some (h3, NewIError) \<Rightarrow>
          Some (new_obj h3 (InputInfoObj NewIType NewIRange NewIError)))))"

text \<open>
  The virtual \<open>MDInfo::clone\<close>, dispatching on the class of the object at the address, and
  the loop of \<open>StructInfo::clone\<close> over the fields. The recursion follows pointers of the
  store, so it carries fuel: \<open>None\<close> also stands for running out of it.
\<close>

fun MDInfo_clone :: "nat \<Rightarrow> 'd store \<Rightarrow> addr \<Rightarrow> ('d store \<times> addr) option"
  and clone_fields :: "nat \<Rightarrow> 'd store \<Rightarrow> addr option list \<Rightarrow> ('d store \<times> addr option list) option"
  where
  "MDInfo_clone 0 h a = None"
| "MDInfo_clone (Suc n) h a =
     (case load h a of
        Some (InputInfoObj t r e) \<Rightarrow> InputInfo_clone h t r e
      | Some (StructInfoObj fs) \<Rightarrow>
          (case clone_fields n h fs of
             None \<Rightarrow> None
           | Some (h', newFields) \<Rightarrow> Some (new_obj h' (StructInfoObj newFields)))
      | _ \<Rightarrow> None)"
| "clone_fields n h [] = Some (h, [])"
| "clone_fields n h (None # rest) =
     (case clone_fields n h rest of
        None \<Rightarrow> None
      | Some (h', newFields) \<Rightarrow> Some (h', None # newFields))"
| "clone_fields n h (Some oldF # rest) =
     (case MDInfo_clone n h oldF of
        None \<Rightarrow> None
      | Some (h1, newF) \<Rightarrow>
          (case clone_fields n h1 rest of
             None \<Rightarrow> None
           | Some (h2, newFields) \<Rightarrow> Some (h2, Some newF # newFields)))"

text \<open>
  The annotation that a store holds at an address, by value, together with the addresses
  of all the objects it consists of (\<open>None\<close> if the store is ill-formed there or the fuel
  does not reach the leaves).
\<close>

definition field_at ::
  "('d obj \<Rightarrow> 'x option) \<Rightarrow> 'd store \<Rightarrow> addr option \<Rightarrow> ('x option \<times> addr list) option" where
  "field_at get h p =
     (case p of
        None \<Rightarrow> Some (None, [])
      | Some a \<Rightarrow>
          (case load h a of
             None \<Rightarrow> None
           | Some ob \<Rightarrow> (case get ob of None \<Rightarrow> None | Some x \<Rightarrow> Some (Some x, [a]))))"

fun graph_at :: "nat \<Rightarrow> 'd store \<Rightarrow> addr \<Rightarrow> ('d MDInfo \<times> addr list) option"
  and fields_at :: "nat \<Rightarrow> 'd store \<Rightarrow> addr option list \<Rightarrow> ('d MDInfo option list \<times> addr list) option"
  where
  "graph_at 0 h a = None"
| "graph_at (Suc n) h a =
     (case load h a of
        Some (InputInfoObj t r e) \<Rightarrow>
          (case field_at as_TType h t of
             None \<Rightarrow> None
           | Some (tv, ta) \<Rightarrow>
          (case field_at as_Range h r of
             None \<Rightarrow> None
           | Some (rv, ra) \<Rightarrow>
          (case field_at as_double h e of
             None \<Rightarrow> None
           | Some (ev, ea) \<Rightarrow> Some (InputInfo tv rv ev, a # ta @ ra @ ea))))
      | Some (StructInfoObj ps) \<Rightarrow>
          (case fields_at n h ps of
             None \<Rightarrow> None
           | Some (vs, as) \<Rightarrow> Some (StructInfo vs, a # as))
      | _ \<Rightarrow> None)"
| "fields_at n h [] = Some ([], [])"
| "fields_at n h (None # rest) =
     (case fields_at n h rest of
        None \<Rightarrow> None
      | Some (vs, as) \<Rightarrow> Some (None # vs, as))"
| "fields_at n h (Some a # rest) =
     (case graph_at n h a of
        None \<Rightarrow> None
      | Some (v, as1) \<Rightarrow>
          (case fields_at n h rest of
             None \<Rightarrow> None
           | Some (vs, as2) \<Rightarrow> Some (Some v # vs, as1 @ as2)))"

section \<open>Comparison errors\<close>

text \<open>
  \<open>double\<close> values are only stored, copied and printed by this file; the type of doubles
  is the parameter \<open>'d\<close>.
\<close>

record 'd CmpErrorInfo =
  MaxTolerance :: 'd
  MayBeWrong :: bool

text \<open>
  \<open>CmpErrorInfo(double MaxTolerance, bool MayBeWrong = true)\<close>: a call that omits the second
  argument (\<open>None\<close>) gets the default.
\<close>

definition CmpErrorInfo_ctor :: "'d \<Rightarrow> bool option \<Rightarrow> 'd CmpErrorInfo" where
  "CmpErrorInfo_ctor T M =
     \<lparr> MaxTolerance = T, MayBeWrong = (case M of None \<Rightarrow> True | Some b \<Rightarrow> b) \<rparr>"

section \<open>The metadata codec\<close>

text \<open>
  The header declares \<open>toMetadata\<close>, \<open>createFromMetadata\<close> and the \<open>is...Metadata\<close>
  predicates; their bodies, and the metadata tree of the host, are not part of it. The
  codec below follows the specification: every encoded entity is a node that starts with
  the discriminator string of its kind, followed by its fields in the fixed order of the
  node layouts; a decoder checks the tag and the arity and answers \<open>None\<close> on a mismatch.
\<close>

text \<open>
  Modelled from the spec: the generic attributed tree of the host (\<open>llvm::Metadata\<close>), with
  strings, integer, boolean and real-valued leaves, and nodes with an ordered list of
  operands.
\<close>

datatype 'd Metadata =
    MDString string
  | MDInt int
  | MDBool bool
  | MDDouble 'd
  | MDNode "'d Metadata list"

text \<open>
  Modelled from the spec: the discriminator tags. The header fixes the tag of the
  fixed-point type, \<open>FIXP_TYPE_FLAG\<close>; the specification names no other tag, so the tags of
  the other kinds are parameters.
\<close>

record tags =
  range_tag :: string
  error_tag :: string
  scalar_tag :: string
  struct_tag :: string
  cmp_tag :: string

definition FIXP_TYPE_FLAG :: string where
  "FIXP_TYPE_FLAG = ''fixp''"

text \<open>
  Modelled from the spec: the explicit empty node that encodes a field or slot without
  information, and \<open>IsNullInputInfoField\<close>, which recognises it.
\<close>

definition NullField :: "'d Metadata" where
  "NullField = MDNode []"

definition IsNullInputInfoField :: "'d Metadata \<Rightarrow> bool" where
  "IsNullInputInfoField MD = (MD = MDNode [])"

text \<open>
  Modelled from the spec: \<open>FPType::toMetadata\<close>, \<open>FPType::isFPTypeMetadata\<close>,
  \<open>FPType::createFromMetadata\<close> and \<open>TType::createFromMetadata\<close>. The node layout is the
  tag, the signed width, the fractional bits; the predicate checks the tag alone; the
  decoder of \<open>TType\<close> tries the one known variant.
\<close>

definition FPType_toMetadata :: "TType \<Rightarrow> 'd Metadata" where
  "FPType_toMetadata t =
     MDNode [MDString FIXP_TYPE_FLAG, MDInt (sint (Width t)), MDInt (uint (PointPos t))]"

fun isFPTypeMetadata :: "'d Metadata \<Rightarrow> bool" where
  "isFPTypeMetadata (MDNode (MDString tag # ops)) = (tag = FIXP_TYPE_FLAG)"
| "isFPTypeMetadata _ = False"

fun FPType_createFromMetadata :: "'d Metadata \<Rightarrow> TType option" where
  "FPType_createFromMetadata (MDNode [MDString tag, MDInt w, MDInt p]) =
     (if tag = FIXP_TYPE_FLAG then Some (FPType_int (word_of_int w) (word_of_int p)) else None)"
| "FPType_createFromMetadata _ = None"

definition TType_createFromMetadata :: "'d Metadata \<Rightarrow> TType option" where
  "TType_createFromMetadata MDN =
     (if isFPTypeMetadata MDN then FPType_createFromMetadata MDN else None)"

text \<open>
  Modelled from the spec: \<open>Range::toMetadata\<close> and \<open>Range::createFromMetadata\<close>, on the
  layout tag, minimum, maximum.
\<close>

definition Range_toMetadata :: "tags \<Rightarrow> 'd Range \<Rightarrow> 'd Metadata" where
  "Range_toMetadata T r = MDNode [MDString (range_tag T), MDDouble (Min r), MDDouble (Max r)]"

fun Range_createFromMetadata :: "tags \<Rightarrow> 'd Metadata \<Rightarrow> 'd Range option" where
  "Range_createFromMetadata T (MDNode [MDString tag, MDDouble a, MDDouble b]) =
     (if tag = range_tag T then Some \<lparr> Min = a, Max = b \<rparr> else None)"
| "Range_createFromMetadata T _ = None"

text \<open>
  Modelled from the spec: \<open>InitialErrorToMetadata\<close> and \<open>CreateInitialErrorFromMetadata\<close>,
  a presence tag and one real-valued leaf.
\<close>

definition InitialErrorToMetadata :: "tags \<Rightarrow> 'd \<Rightarrow> 'd Metadata" where
  "InitialErrorToMetadata T e = MDNode [MDString (error_tag T), MDDouble e]"

fun CreateInitialErrorFromMetadata :: "tags \<Rightarrow> 'd Metadata \<Rightarrow> 'd option" where
  "CreateInitialErrorFromMetadata T (MDNode [MDString tag, MDDouble e]) =
     (if tag = error_tag T then Some e else None)"
| "CreateInitialErrorFromMetadata T _ = None"

text \<open>
  Modelled from the spec: \<open>CmpErrorInfo::toMetadata\<close> and
  \<open>CmpErrorInfo::createFromMetadata\<close>, on the layout tolerance, flag behind the tag.
\<close>

definition CmpErrorInfo_toMetadata :: "tags \<Rightarrow> 'd CmpErrorInfo \<Rightarrow> 'd Metadata" where
  "CmpErrorInfo_toMetadata T c =
     MDNode [MDString (cmp_tag T), MDDouble (MaxTolerance c), MDBool (MayBeWrong c)]"

fun CmpErrorInfo_createFromMetadata :: "tags \<Rightarrow> 'd Metadata \<Rightarrow> 'd CmpErrorInfo option" where
  "CmpErrorInfo_createFromMetadata T (MDNode [MDString tag, MDDouble t, MDBool m]) =
     (if tag = cmp_tag T then Some (CmpErrorInfo_ctor t (Some m)) else None)"
| "CmpErrorInfo_createFromMetadata T _ = None"

text \<open>
  Modelled from the spec: an optional field or slot is the empty node when absent and the
  encoding of its content when present; decoding recognises the empty node first.
\<close>

definition field_toMetadata :: "('a \<Rightarrow> 'd Metadata) \<Rightarrow> 'a option \<Rightarrow> 'd Metadata" where
  "field_toMetadata enc x = (case x of None \<Rightarrow> NullField | Some v \<Rightarrow> enc v)"

definition field_fromMetadata ::
  "('d Metadata \<Rightarrow> 'a option) \<Rightarrow> 'd Metadata \<Rightarrow> 'a option option" where
  "field_fromMetadata decode MD =
     (if IsNullInputInfoField MD then Some None
      else case decode MD of None \<Rightarrow> None | Some v \<Rightarrow> Some (Some v))"

text \<open>
  Modelled from the spec: \<open>InputInfo::toMetadata\<close> and \<open>StructInfo::toMetadata\<close>. A scalar
  node holds its three optional children in the order type, range, error; an aggregate
  node holds one child for each slot, in order.
\<close>

fun MDInfo_toMetadata :: "tags \<Rightarrow> 'd MDInfo \<Rightarrow> 'd Metadata"
  and fields_toMetadata :: "tags \<Rightarrow> 'd MDInfo option list \<Rightarrow> 'd Metadata list" where
  "MDInfo_toMetadata T (InputInfo t r e) =
     MDNode [MDString (scalar_tag T),
             field_toMetadata FPType_toMetadata t,
             field_toMetadata (Range_toMetadata T) r,
             field_toMetadata (InitialErrorToMetadata T) e]"
| "MDInfo_toMetadata T (StructInfo fs) = MDNode (MDString (struct_tag T) # fields_toMetadata T fs)"
| "fields_toMetadata T [] = []"
| "fields_toMetadata T (None # rest) = NullField # fields_toMetadata T rest"
| "fields_toMetadata T (Some m # rest) = MDInfo_toMetadata T m # fields_toMetadata T rest"

text \<open>
  Modelled from the spec: the decoder of annotations, which the header does not declare. It
  dispatches on the tag, checks the arity of a scalar node, and decodes the slots of an
  aggregate node one by one; a child that is neither empty nor decodable makes the whole
  decoding fail.
\<close>

definition InputInfo_fromOperands :: "tags \<Rightarrow> 'd Metadata list \<Rightarrow> 'd MDInfo option" where
  "InputInfo_fromOperands T ops =
     (case ops of
        [t, r, e] \<Rightarrow>
          (case field_fromMetadata TType_createFromMetadata t of
             None \<Rightarrow> None
           | Some t' \<Rightarrow>
          (case field_fromMetadata (Range_createFromMetadata T) r of
             None \<Rightarrow> None
           | Some r' \<Rightarrow>
          (case field_fromMetadata (CreateInitialErrorFromMetadata T) e of
             None \<Rightarrow> None
           | Some e' \<Rightarrow> Some (InputInfo t' r' e'))))
      | _ \<Rightarrow> None)"

fun MDInfo_fromMetadata :: "tags \<Rightarrow> 'd Metadata \<Rightarrow> 'd MDInfo option"
  and fields_fromMetadata :: "tags \<Rightarrow> 'd Metadata list \<Rightarrow> 'd MDInfo option list option" where
  "MDInfo_fromMetadata T (MDNode (MDString tag # ops)) =
     (if tag = scalar_tag T then InputInfo_fromOperands T ops
      else if tag = struct_tag T then map_option StructInfo (fields_fromMetadata T ops)
      else None)"
| "MDInfo_fromMetadata T _ = None"
| "fields_fromMetadata T [] = Some []"
| "fields_fromMetadata T (MD # rest) =
     (case (if IsNullInputInfoField MD then Some None
            else map_option Some (MDInfo_fromMetadata T MD)) of
        None \<Rightarrow> None
      | Some f \<Rightarrow>
          (case fields_fromMetadata T rest of
             None \<Rightarrow> None
           | Some fs \<Rightarrow> Some (f # fs)))"

section \<open>Results\<close>

subsection \<open>Signed reading of small words\<close>

lemma uint_small: "unat (W :: 32 word) < 2 ^ 31 \<Longrightarrow> uint W < 2 ^ 31"
proof -
  assume a: "unat W < 2 ^ 31"
  have "uint W = int (unat W)" by simp
  also have "\<dots> < int (2 ^ 31)" using a by (simp only: of_nat_less_iff)
  finally show ?thesis by simp
qed

lemma sint_small: "unat W < 2 ^ 31 \<Longrightarrow> sint (W :: 32 word) = uint W"
proof -
  assume "unat W < 2 ^ 31"
  then have "uint W < 2 ^ 31" by (rule uint_small)
  moreover have "0 \<le> uint W" by simp
  ultimately have "signed_take_bit 31 (uint W) = uint W"
    by (intro signed_take_bit_int_eq_self) linarith+
  then show ?thesis by (simp add: sint_uint)
qed

lemma sint_neg_small:
  assumes "unat W < 2 ^ 31"
  shows "sint (- W :: 32 word) = - uint W"
proof -
  have s: "sint W = uint W" using assms by (rule sint_small)
  have u: "uint W < 2 ^ 31" using assms by (rule uint_small)
  have z: "0 \<le> uint W" by simp
  have "sint (- W) = signed_take_bit 31 (- sint W)"
    by (simp add: sint_word_ariths)
  also have "\<dots> = - sint W"
    using u z unfolding s by (intro signed_take_bit_int_eq_self) linarith+
  finally show ?thesis using s by simp
qed

subsection \<open>The fixed-point type\<close>

lemma FPType_toString_in_range:
  assumes "unat (getPointPos t) \<le> unat (getWidth t)"
  shows "FPType_toString t = canonical_fixp t"
proof -
  let ?a = "std_abs (Width t)" and ?p = "PointPos t"
  have le: "?p \<le> ?a"
    using assms by (simp add: getWidth_def getPointPos_def word_le_nat_alt)
  then have "unat (?a - ?p) = unat ?a - unat ?p" by (rule unat_sub)
  moreover have "\<not> int (unat ?a) - int (unat ?p) < 0"
    using assms unfolding getWidth_def getPointPos_def by linarith
  then have "show_int (int (unat ?a) - int (unat ?p)) = dec (unat ?a - unat ?p)"
    unfolding show_int_def by (simp only: if_False nat_diff_distrib' nat_int of_nat_0_le_iff)
  ultimately show ?thesis
    by (simp only: FPType_toString_def canonical_fixp_def isSigned_def getWidth_def
        getPointPos_def)
qed

text \<open>
  C5 (as amended). For every fixed-point type whose width is not \<open>INT_MIN\<close> and whose
  fractional bits do not exceed its total width, \<open>toString\<close> is the canonical form: \<open>s\<close> if
  signed else \<open>u\<close>, the total width minus the fractional bits, an underscore, the
  fractional bits, \<open>fixp\<close>. \<open>FPType(-32, 16)\<close> prints \<open>s16_16fixp\<close> and \<open>FPType(16, 8)\<close>
  prints \<open>u8_8fixp\<close>.
\<close>

theorem FPType_toString_canonical:
  assumes "Width t \<noteq> INT_MIN" and "unat (getPointPos t) \<le> unat (getWidth t)"
  shows "FPType_toString t = canonical_fixp t
       \<and> FPType_toString (FPType_int (-32) 16) = ''s16_16fixp''
       \<and> FPType_toString (FPType_int 16 8) = ''u8_8fixp''"
proof -
  have "FPType_toString (FPType_int (-32) 16) = ''s16_16fixp''"
    by (simp add: FPType_toString_def FPType_int_def std_abs_def dec.simps digit_def)
  moreover have "FPType_toString (FPType_int 16 8) = ''u8_8fixp''"
    by (simp add: FPType_toString_def FPType_int_def std_abs_def dec.simps digit_def)
  ultimately show ?thesis using FPType_toString_in_range [OF assms(2)] by simp
qed

theorem FPType_toString_canonical_witness:
  "Width (FPType_int (-32) 16) \<noteq> INT_MIN
   \<and> unat (getPointPos (FPType_int (-32) 16)) \<le> unat (getWidth (FPType_int (-32) 16))
   \<and> FPType_toString (FPType_int (-32) 16) = canonical_fixp (FPType_int (-32) 16)
   \<and> canonical_fixp (FPType_int (-32) 16) = ''s16_16fixp''"
proof -
  have a: "Width (FPType_int (-32) 16) \<noteq> INT_MIN"
    by (simp add: FPType_int_def INT_MIN_def)
  have b: "unat (getPointPos (FPType_int (-32) 16)) \<le> unat (getWidth (FPType_int (-32) 16))"
    by (simp add: FPType_int_def getPointPos_def getWidth_def std_abs_def)
  from FPType_toString_canonical [OF a b]
  have c: "FPType_toString (FPType_int (-32) 16) = canonical_fixp (FPType_int (-32) 16)"
    and d: "FPType_toString (FPType_int (-32) 16) = ''s16_16fixp''"
    by (rule conjunct1, rule conjunct2 [THEN conjunct1])
  have e: "canonical_fixp (FPType_int (-32) 16) = ''s16_16fixp''"
    unfolding c [symmetric] by (rule d)
  show ?thesis by (intro conjI a b c e)
qed

text \<open>
  C5, the claim as stated fails: with 8 bits of width and 16 fractional bits the unsigned
  subtraction wraps around, and the integer-bits field printed is \<open>4294967288\<close>, not the
  difference of the two.
\<close>

theorem FPType_toString_wraps_counterexample:
  "FPType_toString (FPType_int 8 16) = ''u4294967288_16fixp''
   \<and> canonical_fixp (FPType_int 8 16) = ''u-8_16fixp''
   \<and> FPType_toString (FPType_int 8 16) \<noteq> canonical_fixp (FPType_int 8 16)"
proof -
  have a: "FPType_toString (FPType_int 8 16) = ''u4294967288_16fixp''"
    by (simp add: FPType_toString_def FPType_int_def std_abs_def dec.simps digit_def)
  have b: "canonical_fixp (FPType_int 8 16) = ''u-8_16fixp''"
    by (simp add: canonical_fixp_def FPType_int_def std_abs_def dec.simps digit_def
        show_int_def isSigned_def getWidth_def getPointPos_def)
  show ?thesis unfolding a b by simp
qed

text \<open>
  C6. \<open>FPType::operator==\<close> never fails its cast, whatever the kind of the other operand.
  It answers true exactly when the other operand has the kind of an \<open>FPType\<close> and the same
  signed width and fractional bits. Against an object of any other kind it answers false,
  whatever that object's fields hold, and so does the comparison of the base class with
  the operands the other way round.
\<close>

theorem FPType_eq_iff:
  "FPType_eq a (FPTypeObject b :: 'o TTypeObject)
     = Inr (Width a = Width b \<and> PointPos a = PointPos b)
   \<and> FPType_eq a (OtherObject n x :: 'o TTypeObject) = Inr False
   \<and> TType_eq (OtherObject n x) (FPTypeObject a :: 'o TTypeObject) = False
   \<and> FPType_eq a (c :: 'o TTypeObject)
     = Inr (getKind c = getKind (FPTypeObject a :: 'o TTypeObject)
            \<and> cast_FPType c = Inr (FPType (Width a) (PointPos a)))"
proof -
  have 1: "FPType_eq a (FPTypeObject b :: 'o TTypeObject)
      = Inr (Width a = Width b \<and> PointPos a = PointPos b)" for b
    by (simp add: FPType_eq_def TType_eq_def cast_FPType_def classof_FPType_def)
  have 2: "FPType_eq a (OtherObject n x :: 'o TTypeObject) = Inr False" for n x
    by (simp add: FPType_eq_def TType_eq_def)
  have 3: "TType_eq (OtherObject n x) (FPTypeObject a :: 'o TTypeObject) = False"
    by (simp add: TType_eq_def)
  have 4: "FPType_eq a c = Inr (getKind c = getKind (FPTypeObject a :: 'o TTypeObject)
            \<and> cast_FPType c = Inr (FPType (Width a) (PointPos a)))"
  proof (cases c)
    case (FPTypeObject b)
    show ?thesis unfolding FPTypeObject 1
      by (cases a; cases b) (auto simp add: cast_FPType_def classof_FPType_def)
  next
    case (OtherObject m y)
    show ?thesis unfolding OtherObject 2 by (simp add: cast_FPType_def classof_FPType_def)
  qed
  from 1 2 3 4 show ?thesis by (intro conjI)
qed

text \<open>
  C9 (as amended). For the constructor \<open>FPType(unsigned, unsigned, bool)\<close> and every width
  \<open>0 < w < 2^31\<close>, the constructed type has \<open>getWidth() = w\<close>, \<open>getPointPos() = p\<close> and
  \<open>isSigned() = Signed\<close>; for \<open>w = 0\<close> with \<open>Signed = true\<close>, \<open>isSigned()\<close> is false.
\<close>

theorem FPType_unsigned_accessors:
  assumes "0 < W" and "unat W < 2 ^ 31"
  shows "getWidth (FPType_unsigned W P S) = W
       \<and> getPointPos (FPType_unsigned W P S) = P
       \<and> isSigned (FPType_unsigned W P S) = S
       \<and> isSigned (FPType_unsigned 0 P True) = False"
proof -
  have zero: "isSigned (FPType_unsigned 0 P True) = False"
    by (simp add: isSigned_def FPType_unsigned_def)
  show ?thesis
  proof (cases S)
    case True
    have "0 < uint W" using assms(1) by (simp add: word_less_def)
    then have "sint (- W) < 0" using sint_neg_small [OF assms(2)] by simp
    then show ?thesis using True zero
      by (simp add: getWidth_def getPointPos_def isSigned_def FPType_unsigned_def std_abs_def)
  next
    case False
    have "0 \<le> sint W" using sint_small [OF assms(2)] by simp
    then show ?thesis using False zero
      by (simp add: getWidth_def getPointPos_def isSigned_def FPType_unsigned_def std_abs_def)
  qed
qed

theorem FPType_unsigned_accessors_witness:
  "(0 :: c_unsigned) < 32 \<and> unat (32 :: c_unsigned) < 2 ^ 31
   \<and> getWidth (FPType_unsigned 32 16 True) = 32
   \<and> getPointPos (FPType_unsigned 32 16 True) = 16
   \<and> isSigned (FPType_unsigned 32 16 True) = True"
proof -
  have a: "(0 :: c_unsigned) < 32" by simp
  have b: "unat (32 :: c_unsigned) < 2 ^ 31" by simp
  from FPType_unsigned_accessors [OF a b, of 16 True] a b show ?thesis by simp
qed

text \<open>
  C9, the claim as stated fails for widths of \<open>2^31\<close> and more: the unsigned width
  \<open>4294967295\<close> with \<open>Signed = false\<close> is stored as the \<open>int\<close> \<open>-1\<close>, so the type reads as
  signed and one bit wide.
\<close>

theorem FPType_unsigned_large_counterexample:
  "(0 :: c_unsigned) < 4294967295
   \<and> isSigned (FPType_unsigned 4294967295 0 False) = True
   \<and> getWidth (FPType_unsigned 4294967295 0 False) = 1"
  by (simp add: isSigned_def FPType_unsigned_def getWidth_def std_abs_def)

section \<open>Printing annotations\<close>

lemma InputInfo_toString_format: "InputInfo_toString sd t r e = scalar_format sd t r e"
  by (cases t; cases r; cases e) (simp_all add: InputInfo_toString_def scalar_format_def)

lemma fields_toString_join:
  "fields_toString sd first (i # rest) =
     (if first then [] else '', '') @ join_with '', '' (map (slot_format sd) (i # rest))"
proof (induction rest arbitrary: first i)
  case Nil
  show ?case by (simp add: slot_format_def)
next
  case (Cons j rest)
  have "fields_toString sd first (i # j # rest) =
          (if first then [] else '', '') @ slot_format sd i @ fields_toString sd False (j # rest)"
    by (simp add: slot_format_def)
  also have "fields_toString sd False (j # rest) =
          '', '' @ join_with '', '' (map (slot_format sd) (j # rest))"
    using Cons.IH [of False j] by simp
  finally show ?case by simp
qed

lemma StructInfo_toString_format: "MDInfo_toString sd (StructInfo fs) = struct_format sd fs"
  by (cases fs) (simp_all add: struct_format_def fields_toString_join del: fields_toString.simps(2))

text \<open>
  C8. \<open>toString\<close> of a scalar annotation is \<open>scalar(...)\<close> around the fields present among
  type, range and error, in that order, separated by single spaces and rendered as
  \<open>type(T)\<close>, \<open>range(min, max)\<close>, \<open>error(e)\<close>; \<open>toString\<close> of an aggregate is \<open>struct(...)\<close>
  around its slots separated by a comma and a space, an absent slot being \<open>void()\<close>.
\<close>

theorem MDInfo_toString_format:
  "MDInfo_toString sd (InputInfo t r e) = scalar_format sd t r e
   \<and> MDInfo_toString sd (StructInfo fs) = struct_format sd fs
   \<and> slot_format sd None = ''void()''"
  by (simp only: StructInfo_toString_format MDInfo_toString.simps InputInfo_toString_format
      slot_format_def option.case)

section \<open>Shape derivation and index resolution\<close>







lemma resolve_loop_nonstruct:
  "nonstruct_path t idxs \<Longrightarrow> resolve_loop t (Some m) idxs = Inr (Some m)"
  by (induction idxs arbitrary: t) (auto split: sum.splits)

text \<open>
  C3. Through non-struct types whose contained types the indices do select, resolution
  returns the annotation node unchanged (lemma \<open>resolve_loop_nonstruct\<close>; index 0 of an
  array-like descriptor with one contained type). An index outside the arity of a
  non-struct type does not leave the node unchanged: \<open>getContainedType\<close> is called with
  that index and faults. The sibling \<open>constructFromLLVMType\<close> descends through non-struct
  types with index 0.
\<close>

theorem resolveFromIndexList_array_index_fault:
  "nonstruct_path (Type False [Type True [Type False []]]) [0]
   \<and> resolveFromIndexList [None] (Type False [Type True [Type False []]]) [0]
       = Inr (Some (StructInfo [None :: int MDInfo option]))
   \<and> \<not> isStructTy (Type False [Type True [Type False []]])
   \<and> resolveFromIndexList [None :: int MDInfo option] (Type False [Type True [Type False []]]) [1]
       = Inl IndexOutOfRange"
  by (simp add: resolveFromIndexList_def getContainedType_def getNumContainedTypes_def)



section \<open>Cloning\<close>

lemma load_append: "load h b = Some ob \<Longrightarrow> load (h @ ext) b = Some ob"
  by (auto simp add: load_def nth_append split: if_splits)

lemma load_Some_less: "load h b = Some ob \<Longrightarrow> b < length h"
  by (simp add: load_def split: if_splits)

lemma field_at_agree:
  "field_at get h p = Some (x, as) \<Longrightarrow> (\<forall>b\<in>set as. load h' b = load h b) \<Longrightarrow>
   field_at get h' p = Some (x, as)"
  by (auto simp add: field_at_def split: option.splits)

lemma field_at_valid:
  "field_at get h p = Some (x, as) \<Longrightarrow> b \<in> set as \<Longrightarrow> b < length h"
  by (auto simp add: field_at_def split: option.splits dest: load_Some_less)

lemma graph_at_agree:
  "graph_at n h a = Some (v, as) \<Longrightarrow> (\<forall>b\<in>set as. load h' b = load h b) \<Longrightarrow>
     graph_at n h' a = Some (v, as)"
  "fields_at n h ps = Some (vs, bs) \<Longrightarrow> (\<forall>b\<in>set bs. load h' b = load h b) \<Longrightarrow>
     fields_at n h' ps = Some (vs, bs)"
proof (induction n h a and n h ps arbitrary: v as and vs bs rule: graph_at_fields_at.induct)
  case (1 h a)
  then show ?case by simp
next
  case (2 n h a)
  from "2.prems" obtain ob where ob: "load h a = Some ob"
    by (auto split: option.splits)
  show ?case
  proof (cases ob)
    case (InputInfoObj t r e)
    with "2.prems"(1) ob obtain tv ta rv ra ev ea where
      t: "field_at as_TType h t = Some (tv, ta)" and
      r: "field_at as_Range h r = Some (rv, ra)" and
      e: "field_at as_double h e = Some (ev, ea)" and
      v: "v = InputInfo tv rv ev" and as: "as = a # ta @ ra @ ea"
      by (simp split: option.splits prod.splits; blast)
    have "field_at as_TType h' t = Some (tv, ta)"
      using t "2.prems"(2) as by (elim field_at_agree) simp
    moreover have "field_at as_Range h' r = Some (rv, ra)"
      using r "2.prems"(2) as by (elim field_at_agree) simp
    moreover have "field_at as_double h' e = Some (ev, ea)"
      using e "2.prems"(2) as by (elim field_at_agree) simp
    moreover have "load h' a = Some ob" using "2.prems"(2) as ob by simp
    ultimately show ?thesis using InputInfoObj v as by simp
  next
    case (StructInfoObj ps)
    with "2.prems" ob obtain vs bs where f: "fields_at n h ps = Some (vs, bs)"
      and v: "v = StructInfo vs" and as: "as = a # bs"
      by (simp split: option.splits prod.splits; blast)
    have "fields_at n h' ps = Some (vs, bs)"
      using "2.IH" [OF ob StructInfoObj f] "2.prems"(2) as by simp
    with "2.prems"(2) ob StructInfoObj v as show ?thesis by simp
  qed (use "2.prems"(1) ob in simp_all)
next
  case (3 n h)
  then show ?case by simp
next
  case (4 n h rest)
  then show ?case by (auto split: option.splits)
next
  case (5 n h a rest)
  from "5.prems" obtain v as1 vs' as2 where g: "graph_at n h a = Some (v, as1)"
    and f: "fields_at n h rest = Some (vs', as2)"
    and vs: "vs = Some v # vs'" and bs: "bs = as1 @ as2"
    by (auto split: option.splits)
  have "graph_at n h' a = Some (v, as1)"
    using "5.IH"(1) [OF g] "5.prems"(2) bs by simp
  moreover have "fields_at n h' rest = Some (vs', as2)"
    using "5.IH"(2) [OF g _ f] "5.prems"(2) bs by simp
  ultimately show ?case using vs bs by simp
qed

lemma graph_at_SucE:
  assumes "graph_at (Suc n) h a = Some (v, as)"
  obtains (Input) t r e tv ta rv ra ev ea where
      "load h a = Some (InputInfoObj t r e)"
      "field_at as_TType h t = Some (tv, ta)"
      "field_at as_Range h r = Some (rv, ra)"
      "field_at as_double h e = Some (ev, ea)"
      "v = InputInfo tv rv ev" "as = a # ta @ ra @ ea"
  | (Struct) ps vs bs where
      "load h a = Some (StructInfoObj ps)"
      "fields_at n h ps = Some (vs, bs)"
      "v = StructInfo vs" "as = a # bs"
proof -
  from assms obtain ob where ob: "load h a = Some ob"
    by (auto split: option.splits)
  show thesis
  proof (cases ob)
    case (InputInfoObj t r e)
    with assms ob obtain tv ta rv ra ev ea where
      "field_at as_TType h t = Some (tv, ta)"
      "field_at as_Range h r = Some (rv, ra)"
      "field_at as_double h e = Some (ev, ea)"
      "v = InputInfo tv rv ev" "as = a # ta @ ra @ ea"
      by (simp split: option.splits prod.splits; blast)
    with ob InputInfoObj show ?thesis by (intro Input) simp_all
  next
    case (StructInfoObj ps)
    with assms ob obtain vs bs where
      "fields_at n h ps = Some (vs, bs)" "v = StructInfo vs" "as = a # bs"
      by (simp split: option.splits prod.splits; blast)
    with ob StructInfoObj show ?thesis by (intro Struct) simp_all
  qed (use assms ob in simp_all)
qed

lemma graph_at_valid:
  "graph_at n h a = Some (v, as) \<Longrightarrow> b \<in> set as \<Longrightarrow> b < length h"
  "fields_at n h ps = Some (vs, bs) \<Longrightarrow> b \<in> set bs \<Longrightarrow> b < length h"
proof (induction n h a and n h ps arbitrary: v as and vs bs rule: graph_at_fields_at.induct)
  case (1 h a)
  then show ?case by simp
next
  case (2 n h a)
  from "2.prems"(1) show ?case
  proof (cases rule: graph_at_SucE)
    case (Input t r e tv ta rv ra ev ea)
    with "2.prems"(2) show ?thesis
      by (auto dest: field_at_valid load_Some_less)
  next
    case (Struct ps vs bs)
    with "2.prems"(2) "2.IH" [OF Struct(1) refl Struct(2)] show ?thesis
      by (auto dest: load_Some_less)
  qed
next
  case (3 n h)
  then show ?case by simp
next
  case (4 n h rest)
  then show ?case by (auto split: option.splits)
next
  case (5 n h a rest)
  then show ?case by (auto split: option.splits)
qed

lemma graph_at_Suc:
  "graph_at n h a = Some (v, as) \<Longrightarrow> graph_at (Suc n) h a = Some (v, as)"
  "fields_at n h ps = Some (vs, bs) \<Longrightarrow> fields_at (Suc n) h ps = Some (vs, bs)"
proof (induction n h a and n h ps arbitrary: v as and vs bs rule: graph_at_fields_at.induct)
  case (1 h a)
  then show ?case by simp
next
  case (2 n h a)
  from "2.prems"(1) show ?case
  proof (cases rule: graph_at_SucE)
    case (Input t r e tv ta rv ra ev ea)
    then show ?thesis by simp
  next
    case (Struct ps vs bs)
    with "2.IH" [OF Struct(1) refl Struct(2)] show ?thesis by simp
  qed
next
  case (3 n h)
  then show ?case by simp
next
  case (4 n h rest)
  then show ?case by (auto split: option.splits)
next
  case (5 n h a rest)
  from "5.prems" obtain v as1 vs' as2 where g: "graph_at n h a = Some (v, as1)"
    and f: "fields_at n h rest = Some (vs', as2)"
    and vs: "vs = Some v # vs'" and bs: "bs = as1 @ as2"
    by (simp split: option.splits prod.splits; blast)
  have "graph_at (Suc n) h a = Some (v, as1)" using "5.IH"(1) [OF g] .
  moreover have "fields_at (Suc n) h rest = Some (vs', as2)" using "5.IH"(2) [OF g _ f] by simp
  ultimately show ?case using vs bs by (simp del: graph_at.simps)
qed

lemma graph_at_mono: "graph_at n h a = Some (v, as) \<Longrightarrow> n \<le> m \<Longrightarrow> graph_at m h a = Some (v, as)"
proof (induction m)
  case 0
  then show ?case by simp
next
  case (Suc m)
  show ?case
  proof (cases "n = Suc m")
    case True
    with Suc.prems show ?thesis by simp
  next
    case False
    with Suc.prems have "n \<le> m" by simp
    with Suc have "graph_at m h a = Some (v, as)" by simp
    then show ?thesis by (rule graph_at_Suc(1))
  qed
qed

lemma load_prefix: "prefix h h' \<Longrightarrow> b < length h \<Longrightarrow> load h' b = load h b"
  by (auto simp add: prefix_def load_def nth_append)

lemma field_at_prefix:
  assumes "field_at get h p = Some (x, as)" and "prefix h h'"
  shows "field_at get h' p = Some (x, as)"
  using assms(1)
proof (rule field_at_agree)
  show "\<forall>b\<in>set as. load h' b = load h b"
    using assms by (auto intro: load_prefix dest: field_at_valid)
qed

lemma graph_at_prefix:
  assumes "graph_at n h a = Some (v, as)" and "prefix h h'"
  shows "graph_at n h' a = Some (v, as)"
  using assms(1)
proof (rule graph_at_agree(1))
  show "\<forall>b\<in>set as. load h' b = load h b"
    using assms by (auto intro: load_prefix dest: graph_at_valid(1))
qed

lemma fields_at_prefix:
  assumes "fields_at n h ps = Some (vs, bs)" and "prefix h h'"
  shows "fields_at n h' ps = Some (vs, bs)"
  using assms(1)
proof (rule graph_at_agree(2))
  show "\<forall>b\<in>set bs. load h' b = load h b"
    using assms by (auto intro: load_prefix dest: graph_at_valid(2))
qed

lemma graph_at_update:
  assumes "graph_at n h a = Some (v, as)" and "b \<notin> set as"
  shows "graph_at n (h[b := ob]) a = Some (v, as)"
  using assms(1)
proof (rule graph_at_agree(1))
  show "\<forall>c\<in>set as. load (h[b := ob]) c = load h c"
  proof
    fix c assume "c \<in> set as"
    with assms(2) have "c \<noteq> b" by blast
    then show "load (h[b := ob]) c = load h c" by (simp add: load_def)
  qed
qed

lemma load_new: "load (h @ [ob]) (length h) = Some ob"
  by (simp add: load_def)

lemma clone_ptr_correct:
  assumes "field_at get h p = Some (x, as)" and "\<And>y. get (mk y) = Some y"
  shows "\<exists>h' p' as'. clone_ptr get mk h p = Some (h', p') \<and> prefix h h'
           \<and> field_at get h' p' = Some (x, as') \<and> (\<forall>b\<in>set as'. length h \<le> b)"
proof (cases p)
  case None
  with assms(1) show ?thesis by (simp add: clone_ptr_def field_at_def)
next
  case (Some a)
  note p = this
  from assms(1) p obtain ob where ob: "load h a = Some ob"
    by (cases "load h a") (simp_all add: field_at_def)
  from assms(1) p ob obtain y where y: "get ob = Some y"
    by (cases "get ob") (simp_all add: field_at_def)
  from assms(1) p ob y have x: "x = Some y"
    by (simp add: field_at_def)
  have "clone_ptr get mk h p = Some (h @ [mk y], Some (length h))"
    using p ob y by (simp add: clone_ptr_def new_obj_def)
  moreover have "field_at get (h @ [mk y]) (Some (length h)) = Some (x, [length h])"
    using x assms(2) by (simp add: field_at_def load_new)
  ultimately show ?thesis by simp
qed

lemma TType_clone_same: "as_TType (TTypeObj (TType_clone y)) = Some y"
  by (simp add: TType_clone_def FPType_int_def)

lemma Range_copy_same: "as_Range (RangeObj (Range_copy y)) = Some y"
  by (simp add: Range_copy_def)

lemma InputInfo_clone_correct:
  assumes t: "field_at as_TType h t = Some (tv, ta)"
    and r: "field_at as_Range h r = Some (rv, ra)"
    and e: "field_at as_double h e = Some (ev, ea)"
  shows "\<exists>h' a' as'. InputInfo_clone h t r e = Some (h', a') \<and> prefix h h'
           \<and> graph_at (Suc n) h' a' = Some (InputInfo tv rv ev, as')
           \<and> (\<forall>b\<in>set as'. length h \<le> b)"
proof -
  from clone_ptr_correct [OF t TType_clone_same]
  obtain h1 t' ta' where c1: "clone_ptr as_TType (\<lambda>t. TTypeObj (TType_clone t)) h t = Some (h1, t')"
    and p1: "prefix h h1" and f1: "field_at as_TType h1 t' = Some (tv, ta')"
    and n1: "\<forall>b\<in>set ta'. length h \<le> b"
    by blast
  from clone_ptr_correct [OF field_at_prefix [OF r p1] Range_copy_same]
  obtain h2 r' ra' where c2: "clone_ptr as_Range (\<lambda>r. RangeObj (Range_copy r)) h1 r = Some (h2, r')"
    and p2: "prefix h1 h2" and f2: "field_at as_Range h2 r' = Some (rv, ra')"
    and n2: "\<forall>b\<in>set ra'. length h1 \<le> b"
    by blast
  have p02: "prefix h h2" using p1 p2 by (rule prefix_order.trans)
  from clone_ptr_correct [OF field_at_prefix [OF e p02], of DoubleObj]
  obtain h3 e' ea' where c3: "clone_ptr as_double DoubleObj h2 e = Some (h3, e')"
    and p3: "prefix h2 h3" and f3: "field_at as_double h3 e' = Some (ev, ea')"
    and n3: "\<forall>b\<in>set ea'. length h2 \<le> b"
    by auto
  let ?ob = "InputInfoObj t' r' e'"
  let ?h' = "h3 @ [?ob]"
  have p03: "prefix h h3" using p02 p3 by (rule prefix_order.trans)
  have p3': "prefix h3 ?h'" by simp
  have clone: "InputInfo_clone h t r e = Some (?h', length h3)"
    by (simp add: InputInfo_clone_def c1 c2 c3 new_obj_def)
  have g1: "field_at as_TType ?h' t' = Some (tv, ta')"
    by (rule field_at_prefix [OF f1]) (use p2 p3 p3' in \<open>auto intro: prefix_order.trans\<close>)
  have g2: "field_at as_Range ?h' r' = Some (rv, ra')"
    by (rule field_at_prefix [OF f2]) (use p3 p3' in \<open>auto intro: prefix_order.trans\<close>)
  have g3: "field_at as_double ?h' e' = Some (ev, ea')"
    by (rule field_at_prefix [OF f3]) simp
  have graph: "graph_at (Suc n) ?h' (length h3) = Some (InputInfo tv rv ev, length h3 # ta' @ ra' @ ea')"
    by (simp add: load_new g1 g2 g3)
  have l1: "length h \<le> length h1" using p1 by (rule prefix_length_le)
  have l2: "length h1 \<le> length h2" using p2 by (rule prefix_length_le)
  have l3: "length h2 \<le> length h3" using p3 by (rule prefix_length_le)
  have fresh: "\<forall>b\<in>set (length h3 # ta' @ ra' @ ea'). length h \<le> b"
    using n1 n2 n3 l1 l2 l3 by fastforce
  have "prefix h ?h'" using p03 p3' by (rule prefix_order.trans)
  with clone graph fresh show ?thesis by blast
qed

lemma clone_correct:
  "graph_at n h a = Some (v, as) \<Longrightarrow>
     \<exists>h' a' as'. MDInfo_clone n h a = Some (h', a') \<and> prefix h h'
        \<and> graph_at n h' a' = Some (v, as') \<and> (\<forall>b\<in>set as'. length h \<le> b)"
  "fields_at n h ps = Some (vs, bs) \<Longrightarrow>
     \<exists>h' ps' bs'. clone_fields n h ps = Some (h', ps') \<and> prefix h h'
        \<and> fields_at n h' ps' = Some (vs, bs') \<and> (\<forall>b\<in>set bs'. length h \<le> b)"
proof (induction n h a and n h ps arbitrary: v as and vs bs rule: MDInfo_clone_clone_fields.induct)
  case (1 h a)
  then show ?case by simp
next
  case (2 n h a)
  from "2.prems" show ?case
  proof (cases rule: graph_at_SucE)
    case (Input t r e tv ta rv ra ev ea)
    from InputInfo_clone_correct [OF Input(2,3,4), of n] Input(1,5)
    show ?thesis by simp
  next
    case (Struct ps vs bs)
    from "2.IH" [OF Struct(1) refl Struct(2)]
    obtain h' ps' bs' where c: "clone_fields n h ps = Some (h', ps')" and p: "prefix h h'"
      and f: "fields_at n h' ps' = Some (vs, bs')" and fr: "\<forall>b\<in>set bs'. length h \<le> b"
      by blast
    let ?h'' = "h' @ [StructInfoObj ps']"
    have clone: "MDInfo_clone (Suc n) h a = Some (?h'', length h')"
      using Struct(1) c by (simp add: new_obj_def)
    have "fields_at n ?h'' ps' = Some (vs, bs')"
      by (rule fields_at_prefix [OF f]) simp
    then have graph: "graph_at (Suc n) ?h'' (length h') = Some (v, length h' # bs')"
      using Struct(3) by (simp add: load_new)
    have "length h \<le> length h'" using p by (rule prefix_length_le)
    with fr have fresh: "\<forall>b\<in>set (length h' # bs'). length h \<le> b" by simp
    have "prefix h ?h''" using p by (rule prefix_order.trans) simp
    with clone graph fresh show ?thesis by blast
  qed
next
  case (3 n h)
  then show ?case by simp
next
  case (4 n h rest)
  from "4.prems" obtain vs' where f: "fields_at n h rest = Some (vs', bs)" and vs: "vs = None # vs'"
    by (simp split: option.splits prod.splits; blast)
  from "4.IH" [OF f] vs show ?case by auto
next
  case (5 n h oldF rest)
  from "5.prems" obtain v as1 vs' as2 where g: "graph_at n h oldF = Some (v, as1)"
    and f: "fields_at n h rest = Some (vs', as2)"
    and vs: "vs = Some v # vs'" and bs: "bs = as1 @ as2"
    by (simp split: option.splits prod.splits; blast)
  from "5.IH"(1) [OF g]
  obtain h1 newF cs1 where c1: "MDInfo_clone n h oldF = Some (h1, newF)" and p1: "prefix h h1"
    and g1: "graph_at n h1 newF = Some (v, cs1)" and fr1: "\<forall>b\<in>set cs1. length h \<le> b"
    by blast
  from "5.IH"(2) [OF c1 refl fields_at_prefix [OF f p1]]
  obtain h2 newFields cs2 where c2: "clone_fields n h1 rest = Some (h2, newFields)"
    and p2: "prefix h1 h2" and f2: "fields_at n h2 newFields = Some (vs', cs2)"
    and fr2: "\<forall>b\<in>set cs2. length h1 \<le> b"
    by blast
  have clone: "clone_fields n h (Some oldF # rest) = Some (h2, Some newF # newFields)"
    using c1 c2 by simp
  have "graph_at n h2 newF = Some (v, cs1)" by (rule graph_at_prefix [OF g1 p2])
  with f2 vs have fields: "fields_at n h2 (Some newF # newFields) = Some (vs, cs1 @ cs2)"
    by simp
  have "length h \<le> length h1" using p1 by (rule prefix_length_le)
  with fr1 fr2 have fresh: "\<forall>b\<in>set (cs1 @ cs2). length h \<le> b" by fastforce
  have "prefix h h2" using p1 p2 by (rule prefix_order.trans)
  with clone fields fresh show ?case by blast
qed

text \<open>
  C7. Let the store hold a well-formed annotation at \<open>x\<close>, scalar or aggregate, of value
  \<open>v\<close> and made of the objects at the addresses \<open>as\<close>. With enough fuel \<open>clone\<close> returns.
  It leaves the old store as it was, and the node \<open>c\<close> it returns has the same value \<open>v\<close>
  (present fields and slots are copies with equal contents, absent ones stay absent) and
  consists of newly allocated objects only. Overwriting any object of the clone, such as
  reassigning one of its fields, leaves the value and the objects of \<open>x\<close> unchanged.
\<close>

theorem MDInfo_clone_deep_copy:
  assumes "graph_at n h x = Some (v, as)" and "n \<le> m"
  shows "\<exists>h' c cs. MDInfo_clone m h x = Some (h', c)
           \<and> prefix h h'
           \<and> graph_at m h' c = Some (v, cs)
           \<and> (\<forall>b\<in>set cs. length h \<le> b)
           \<and> (\<forall>b\<in>set as. b < length h)
           \<and> graph_at m h' x = Some (v, as)
           \<and> (\<forall>b\<in>set cs. \<forall>ob. graph_at m (h'[b := ob]) x = Some (v, as))"
proof -
  have g: "graph_at m h x = Some (v, as)" using assms by (rule graph_at_mono)
  from clone_correct(1) [OF g]
  obtain h' c cs where c: "MDInfo_clone m h x = Some (h', c)" and p: "prefix h h'"
    and gc: "graph_at m h' c = Some (v, cs)" and fr: "\<forall>b\<in>set cs. length h \<le> b"
    by blast
  have old: "\<forall>b\<in>set as. b < length h"
    using g by (blast dest: graph_at_valid(1))
  have gx: "graph_at m h' x = Some (v, as)"
    using g p by (rule graph_at_prefix)
  have "\<forall>b\<in>set cs. \<forall>ob. graph_at m (h'[b := ob]) x = Some (v, as)"
  proof (intro ballI allI)
    fix b ob assume "b \<in> set cs"
    with fr have "length h \<le> b" by blast
    with old have "b \<notin> set as" by fastforce
    with gx show "graph_at m (h'[b := ob]) x = Some (v, as)" by (rule graph_at_update)
  qed
  with c p gc fr old gx show ?thesis by blast
qed

theorem MDInfo_clone_deep_copy_witness:
  "graph_at (Suc (Suc 0))
     [RangeObj \<lparr>Min = 1 :: int, Max = 2\<rparr>, DoubleObj 3, InputInfoObj None (Some 0) (Some 1),
      StructInfoObj [Some 2, None]] 3
   = Some (StructInfo [Some (InputInfo None (Some \<lparr>Min = 1, Max = 2\<rparr>) (Some 3)), None],
           [3, 2, 0, 1])
   \<and> (\<exists>h' c cs.
         MDInfo_clone (Suc (Suc 0))
           [RangeObj \<lparr>Min = 1 :: int, Max = 2\<rparr>, DoubleObj 3, InputInfoObj None (Some 0) (Some 1),
            StructInfoObj [Some 2, None]] 3 = Some (h', c)
         \<and> graph_at (Suc (Suc 0)) h' c
             = Some (StructInfo [Some (InputInfo None (Some \<lparr>Min = 1, Max = 2\<rparr>) (Some 3)), None],
                     cs)
         \<and> (\<forall>b\<in>set cs. 4 \<le> b)
         \<and> (\<forall>b\<in>set cs. \<forall>ob. graph_at (Suc (Suc 0)) (h'[b := ob]) 3
             = Some (StructInfo [Some (InputInfo None (Some \<lparr>Min = 1, Max = 2\<rparr>) (Some 3)), None],
                     [3, 2, 0, 1])))"
proof -
  let ?h = "[RangeObj \<lparr>Min = 1 :: int, Max = 2\<rparr>, DoubleObj 3, InputInfoObj None (Some 0) (Some 1),
      StructInfoObj [Some 2, None]]"
  let ?v = "StructInfo [Some (InputInfo None (Some \<lparr>Min = 1 :: int, Max = 2\<rparr>) (Some 3)), None]"
  have a: "graph_at (Suc (Suc 0)) ?h 3 = Some (?v, [3, 2, 0, 1])"
    by (simp add: load_def field_at_def)
  have b: "Suc (Suc 0) \<le> Suc (Suc 0)" by simp
  have len: "length ?h = 4" by simp
  from MDInfo_clone_deep_copy [OF a b]
  have "\<exists>h' c cs. MDInfo_clone (Suc (Suc 0)) ?h 3 = Some (h', c)
      \<and> graph_at (Suc (Suc 0)) h' c = Some (?v, cs)
      \<and> (\<forall>b\<in>set cs. 4 \<le> b)
      \<and> (\<forall>b\<in>set cs. \<forall>ob. graph_at (Suc (Suc 0)) (h'[b := ob]) 3 = Some (?v, [3, 2, 0, 1]))"
    unfolding len by blast
  with a show ?thesis by (rule conjI)
qed

section \<open>Round trip through the codec\<close>

lemma FPType_roundtrip: "FPType_createFromMetadata (FPType_toMetadata t) = Some t"
  by (cases t) (simp add: FPType_toMetadata_def FPType_int_def)

lemma TType_roundtrip: "TType_createFromMetadata (FPType_toMetadata t) = Some t"
  by (simp add: TType_createFromMetadata_def FPType_roundtrip) (simp add: FPType_toMetadata_def)

lemma Range_roundtrip: "Range_createFromMetadata T (Range_toMetadata T r) = Some r"
  by (simp add: Range_toMetadata_def)

lemma InitialError_roundtrip:
  "CreateInitialErrorFromMetadata T (InitialErrorToMetadata T e) = Some e"
  by (simp add: InitialErrorToMetadata_def)

lemma CmpErrorInfo_roundtrip:
  "CmpErrorInfo_createFromMetadata T (CmpErrorInfo_toMetadata T c) = Some c"
  by (simp add: CmpErrorInfo_toMetadata_def CmpErrorInfo_ctor_def)

lemma field_roundtrip:
  assumes "\<And>v. decode (enc v) = Some v" and "\<And>v. \<not> IsNullInputInfoField (enc v)"
  shows "field_fromMetadata decode (field_toMetadata enc x) = Some x"
  using assms by (cases x) (simp_all add: field_fromMetadata_def field_toMetadata_def
      IsNullInputInfoField_def NullField_def)

lemma MDInfo_not_null: "\<not> IsNullInputInfoField (MDInfo_toMetadata T m)"
  by (cases m) (simp_all add: IsNullInputInfoField_def)

lemma InputInfo_roundtrip:
  "InputInfo_fromOperands T
     [field_toMetadata FPType_toMetadata t, field_toMetadata (Range_toMetadata T) r,
      field_toMetadata (InitialErrorToMetadata T) e] = Some (InputInfo t r e)"
proof -
  have 1: "field_fromMetadata TType_createFromMetadata
             (field_toMetadata FPType_toMetadata t :: 'a Metadata) = Some t"
  proof (rule field_roundtrip)
    show "TType_createFromMetadata (FPType_toMetadata v :: 'a Metadata) = Some v" for v
      by (rule TType_roundtrip)
    show "\<not> IsNullInputInfoField (FPType_toMetadata v :: 'a Metadata)" for v
      by (simp add: FPType_toMetadata_def IsNullInputInfoField_def)
  qed
  have 2: "field_fromMetadata (Range_createFromMetadata T)
             (field_toMetadata (Range_toMetadata T) r) = Some r"
  proof (rule field_roundtrip)
    show "Range_createFromMetadata T (Range_toMetadata T v) = Some v" for v :: "'a Range"
      by (rule Range_roundtrip)
    show "\<not> IsNullInputInfoField (Range_toMetadata T v)" for v :: "'a Range"
      by (simp add: Range_toMetadata_def IsNullInputInfoField_def)
  qed
  have 3: "field_fromMetadata (CreateInitialErrorFromMetadata T)
             (field_toMetadata (InitialErrorToMetadata T) e) = Some e"
  proof (rule field_roundtrip)
    show "CreateInitialErrorFromMetadata T (InitialErrorToMetadata T v) = Some v" for v :: 'a
      by (rule InitialError_roundtrip)
    show "\<not> IsNullInputInfoField (InitialErrorToMetadata T v)" for v :: 'a
      by (simp add: InitialErrorToMetadata_def IsNullInputInfoField_def)
  qed
  show ?thesis by (simp add: InputInfo_fromOperands_def 1 2 3)
qed

lemma MDInfo_roundtrip:
  "scalar_tag T \<noteq> struct_tag T \<Longrightarrow>
     MDInfo_fromMetadata T (MDInfo_toMetadata T m) = Some (m :: 'd MDInfo)"
  "scalar_tag T \<noteq> struct_tag T \<Longrightarrow>
     fields_fromMetadata T (fields_toMetadata T fs) = Some (fs :: 'd MDInfo option list)"
proof (induction T m and T fs rule: MDInfo_toMetadata_fields_toMetadata.induct)
  case (1 T t r e)
  show ?case by (simp add: InputInfo_roundtrip)
next
  case (2 T fs)
  then show ?case by auto
next
  case (3 T)
  show ?case by simp
next
  case (4 T rest)
  then show ?case by (simp add: NullField_def IsNullInputInfoField_def)
next
  case (5 T m rest)
  then show ?case by (simp add: MDInfo_not_null)
qed

text \<open>
  C1. With distinct tags for scalar and aggregate nodes, decoding the node that encoding
  produces gives back the entity itself, for numeric types, ranges, scalar annotations,
  aggregate annotations and comparison errors; optional fields and slots that are absent
  come back absent, in particular the scalar annotation without any information.
\<close>

theorem codec_roundtrip:
  assumes "scalar_tag T \<noteq> struct_tag T"
  shows "TType_createFromMetadata (FPType_toMetadata t :: 'd Metadata) = Some t
       \<and> Range_createFromMetadata T (Range_toMetadata T r) = Some (r :: 'd Range)
       \<and> MDInfo_fromMetadata T (MDInfo_toMetadata T (InputInfo ty rg er))
           = Some (InputInfo ty rg er :: 'd MDInfo)
       \<and> MDInfo_fromMetadata T (MDInfo_toMetadata T (StructInfo fs))
           = Some (StructInfo fs :: 'd MDInfo)
       \<and> CmpErrorInfo_createFromMetadata T (CmpErrorInfo_toMetadata T c)
           = Some (c :: 'd CmpErrorInfo)
       \<and> MDInfo_fromMetadata T (MDInfo_toMetadata T (InputInfo None None None))
           = Some (InputInfo None None None :: 'd MDInfo)"
  by (intro conjI TType_roundtrip Range_roundtrip CmpErrorInfo_roundtrip
      MDInfo_roundtrip(1) [OF assms])

theorem codec_roundtrip_witness:
  "scalar_tag \<lparr>range_tag = ''range'', error_tag = ''error'', scalar_tag = ''scalar'',
                struct_tag = ''struct'', cmp_tag = ''cmp''\<rparr>
     \<noteq> struct_tag \<lparr>range_tag = ''range'', error_tag = ''error'', scalar_tag = ''scalar'',
                struct_tag = ''struct'', cmp_tag = ''cmp''\<rparr>
   \<and> TType_createFromMetadata (FPType_toMetadata (FPType_int (-32) 16) :: int Metadata)
       = Some (FPType_int (-32) 16)
   \<and> MDInfo_fromMetadata
        \<lparr>range_tag = ''range'', error_tag = ''error'', scalar_tag = ''scalar'',
         struct_tag = ''struct'', cmp_tag = ''cmp''\<rparr>
        (MDInfo_toMetadata
           \<lparr>range_tag = ''range'', error_tag = ''error'', scalar_tag = ''scalar'',
            struct_tag = ''struct'', cmp_tag = ''cmp''\<rparr>
           (StructInfo [None, Some (InputInfo (Some (FPType_int (-32) 16)) None (Some (0 :: int)))]))
       = Some (StructInfo [None, Some (InputInfo (Some (FPType_int (-32) 16)) None (Some 0))])
   \<and> MDInfo_toMetadata
        \<lparr>range_tag = ''range'', error_tag = ''error'', scalar_tag = ''scalar'',
         struct_tag = ''struct'', cmp_tag = ''cmp''\<rparr>
        (StructInfo [None, Some (InputInfo (Some (FPType_int (-32) 16)) None (Some (0 :: int)))])
       = MDNode [MDString ''struct'', MDNode [],
           MDNode [MDString ''scalar'', MDNode [MDString ''fixp'', MDInt (-32), MDInt 16],
                   MDNode [], MDNode [MDString ''error'', MDDouble 0]]]"
proof -
  let ?T = "\<lparr>range_tag = ''range'', error_tag = ''error'', scalar_tag = ''scalar'',
                struct_tag = ''struct'', cmp_tag = ''cmp''\<rparr>"
  let ?x = "StructInfo [None, Some (InputInfo (Some (FPType_int (-32) 16)) None (Some (0 :: int)))]"
  have a: "scalar_tag ?T \<noteq> struct_tag ?T" by simp
  have b: "MDInfo_toMetadata ?T ?x
       = MDNode [MDString ''struct'', MDNode [],
           MDNode [MDString ''scalar'', MDNode [MDString ''fixp'', MDInt (-32), MDInt 16],
                   MDNode [], MDNode [MDString ''error'', MDDouble 0]]]"
    by (simp add: field_toMetadata_def NullField_def FPType_toMetadata_def FPType_int_def
        FIXP_TYPE_FLAG_def InitialErrorToMetadata_def)
  from codec_roundtrip [OF a, of "FPType_int (-32) 16" _ _ _ _ "[None, Some (InputInfo (Some (FPType_int (-32) 16)) None (Some (0 :: int)))]"]
  have "TType_createFromMetadata (FPType_toMetadata (FPType_int (-32) 16) :: int Metadata)
       = Some (FPType_int (-32) 16)"
    and "MDInfo_fromMetadata ?T (MDInfo_toMetadata ?T ?x) = Some ?x"
    by (rule conjunct1, rule conjunct2 [THEN conjunct2, THEN conjunct2, THEN conjunct1])
  with a b show ?thesis by (intro conjI)
qed

section \<open>Comparison error information\<close>

text \<open>
  C10. A \<open>CmpErrorInfo\<close> constructed from a tolerance alone has \<open>MayBeWrong = true\<close> and
  \<open>MaxTolerance\<close> equal to the tolerance given.
\<close>

theorem CmpErrorInfo_default_flag:
  "MayBeWrong (CmpErrorInfo_ctor t None) = True \<and> MaxTolerance (CmpErrorInfo_ctor t None) = t"
  by (simp add: CmpErrorInfo_ctor_def)

end
